theory Spec2Isabelle
  imports Main "HOL-Library.Word" "HOL-Library.Sublist"
begin

unbundle bit_operations_syntax

section \<open>JavaScript strings and numbers\<close>

text \<open>
  A JavaScript string is a sequence of 16-bit code units. A string literal of the source
  is written \<open>str ''...''\<close>; every literal of \<^verbatim>\<open>script.js\<close> but two is ASCII,
  and those two (the bullet of the status line and the wastebasket of the delete button)
  are given by their code units.
\<close>

type_synonym code_unit = "16 word"
type_synonym jsstring = "code_unit list"

definition str :: "string \<Rightarrow> jsstring" where
  "str s = map (\<lambda>c. of_nat (of_char c)) s"

text \<open>
  \<^verbatim>\<open>String.prototype.trim\<close> removes WhiteSpace and LineTerminator code points from both
  ends: TAB, LF, VT, FF, CR, SPACE, NBSP, U+1680, U+2000..U+200A, U+2028, U+2029, U+202F,
  U+205F, U+3000 and U+FEFF. All of them are single code units.
\<close>

definition isTrimSpace :: "code_unit \<Rightarrow> bool" where
  "isTrimSpace c \<longleftrightarrow>
     c \<in> set [0x09, 0x0A, 0x0B, 0x0C, 0x0D, 0x20, 0xA0, 0x1680, 0x2028, 0x2029,
                0x202F, 0x205F, 0x3000, 0xFEFF]
     \<or> (0x2000 \<le> c \<and> c \<le> 0x200A)"

definition trim :: "jsstring \<Rightarrow> jsstring" where
  "trim s = rev (dropWhile isTrimSpace (rev (dropWhile isTrimSpace s)))"

text \<open>
  \<^verbatim>\<open>Number.prototype.toString\<close> on an integral number below \<open>10^21\<close> in magnitude
  prints its decimal digits, with a leading minus sign when negative. Every number the
  program prints is such an integer: a time value (at most \<open>8.64 * 10^15\<close> in magnitude),
  a quotient of two of them, or the length of an array.
\<close>

definition digit :: "nat \<Rightarrow> code_unit" where
  "digit d = of_nat (48 + d)"

function digits :: "nat \<Rightarrow> jsstring" where
  "digits n = (if n < 10 then [digit n] else digits (n div 10) @ [digit (n mod 10)])"
  by pat_completeness auto
termination
  by (relation "measure (\<lambda>n. n)") auto

declare digits.simps [simp del]

definition Number_toString :: "int \<Rightarrow> jsstring" where
  "Number_toString n = (if n < 0 then str ''-'' @ digits (nat (- n)) else digits (nat n))"

section \<open>Data model\<close>

text \<open>
  \<^verbatim>\<open>let tasks = []; // { id, text, completed, createdAt }\<close>

  A task is an object with these four properties, created in this order: that is how
  \<^verbatim>\<open>onAdd\<close> builds it, how \<^verbatim>\<open>toggleTask\<close> copies it, and how it comes back from
  what \<^verbatim>\<open>saveToStorage\<close> wrote. The fields \<^verbatim>\<open>id\<close> and \<^verbatim>\<open>text\<close> are named
  \<open>task_id\<close> and \<open>task_text\<close> here.
\<close>

record task =
  task_id :: jsstring
  task_text :: jsstring
  completed :: bool
  createdAt :: jsstring

subsection \<open>What the program does to the world around it\<close>

datatype dom_exception = QuotaExceededError | SecurityError

datatype js_error = DOMException dom_exception | SyntaxError

text \<open>
  The observable effects of a handler, in the order they happen: a message on
  \<^verbatim>\<open>console.error\<close> with the error caught, a \<^verbatim>\<open>confirm\<close> dialog with the user's
  answer, and a completed \<^verbatim>\<open>localStorage.setItem\<close>.
\<close>

datatype effect =
    ConsoleError jsstring js_error
  | Confirm jsstring bool
  | SetItem jsstring jsstring

type_synonym storage = "jsstring \<rightharpoonup> jsstring"

text \<open>
  What the environment answers during one handler: the clock (\<^verbatim>\<open>Date.now()\<close> in
  milliseconds, \<^verbatim>\<open>new Date().toISOString()\<close>, and the \<^verbatim>\<open>new Date()\<close> that
  \<^verbatim>\<open>timeAgo\<close> reads), whether an access to \<^verbatim>\<open>localStorage\<close> throws and what,
  the user's answer to a \<^verbatim>\<open>confirm\<close> dialog, and the two date functions of the
  platform that rendering calls: the time value of \<^verbatim>\<open>new Date(iso)\<close> (\<open>None\<close> for
  an invalid date, whose time value is NaN) and \<^verbatim>\<open>new Date(iso).toLocaleString()\<close>.
\<close>

record env =
  Date_now :: int
  Date_toISOString :: jsstring
  timeAgo_now :: int
  storage_fault :: "dom_exception option"
  confirm_answer :: bool
  Date_getTime :: "jsstring \<Rightarrow> int option"
  Date_toLocaleString :: "jsstring \<Rightarrow> jsstring"

definition getItem :: "env \<Rightarrow> storage \<Rightarrow> jsstring \<Rightarrow> dom_exception + jsstring option" where
  "getItem e st k = (case storage_fault e of Some x \<Rightarrow> Inl x | None \<Rightarrow> Inr (st k))"

definition setItem :: "env \<Rightarrow> storage \<Rightarrow> jsstring \<Rightarrow> jsstring \<Rightarrow> dom_exception + storage" where
  "setItem e st k v = (case storage_fault e of Some x \<Rightarrow> Inl x | None \<Rightarrow> Inr (st(k \<mapsto> v)))"

subsection \<open>The page and the program state\<close>

text \<open>
  One \<^verbatim>\<open>li\<close> element that \<^verbatim>\<open>render\<close> creates, and the three parts of the page
  that it writes: the children of \<^verbatim>\<open>refs.list\<close>, \<^verbatim>\<open>refs.emptyState.style.display\<close>
  and \<^verbatim>\<open>refs.leftInfo.textContent\<close>.
\<close>

record li =
  className :: jsstring
  dataset_id :: jsstring
  innerHTML :: jsstring

record page =
  list_children :: "li list"
  emptyState_display :: jsstring
  leftInfo_textContent :: jsstring

text \<open>
  The module-level variables \<^verbatim>\<open>tasks\<close> and \<^verbatim>\<open>currentFilter\<close>, the value of the
  input field, the browser's \<^verbatim>\<open>localStorage\<close>, the page, and the effects so far.
\<close>

record app =
  tasks :: "task list"
  currentFilter :: jsstring
  input_value :: jsstring
  localStorage :: storage
  dom :: page
  trace :: "effect list"

definition STORAGE_KEY :: jsstring where
  "STORAGE_KEY = str ''my_todo_tasks_v1''"

section \<open>Persistence: \<^verbatim>\<open>JSON.stringify\<close> of the task list\<close>

text \<open>
  \<^verbatim>\<open>JSON.stringify(tasks)\<close> on an array of task objects, as ECMAScript's
  SerializeJSONArray, SerializeJSONObject and QuoteJSONString define it (no indentation,
  the properties in creation order: id, text, completed, createdAt). QuoteJSONString
  escapes the quotation mark, the backslash and the control characters below U+0020, and
  writes a surrogate code unit that is not part of a pair as a \<^verbatim>\<open>\u\<close> escape of four
  hexadecimal digits.
\<close>

definition hexdigit :: "nat \<Rightarrow> code_unit" where
  "hexdigit d = of_nat (if d < 10 then 48 + d else 87 + d)"

definition UnicodeEscape :: "code_unit \<Rightarrow> jsstring" where
  "UnicodeEscape c =
     (let n = unat c in
      [0x5C, 0x75, hexdigit (n div 4096 mod 16), hexdigit (n div 256 mod 16),
       hexdigit (n div 16 mod 16), hexdigit (n mod 16)])"

definition isLeadingSurrogate :: "code_unit \<Rightarrow> bool" where
  "isLeadingSurrogate c \<longleftrightarrow> 0xD800 \<le> c \<and> c \<le> 0xDBFF"

definition isTrailingSurrogate :: "code_unit \<Rightarrow> bool" where
  "isTrailingSurrogate c \<longleftrightarrow> 0xDC00 \<le> c \<and> c \<le> 0xDFFF"

definition quote_unit :: "code_unit \<Rightarrow> jsstring" where
  "quote_unit c =
     (if c = 0x08 then [0x5C, 0x62]
      else if c = 0x09 then [0x5C, 0x74]
      else if c = 0x0A then [0x5C, 0x6E]
      else if c = 0x0C then [0x5C, 0x66]
      else if c = 0x0D then [0x5C, 0x72]
      else if c = 0x22 then [0x5C, 0x22]
      else if c = 0x5C then [0x5C, 0x5C]
      else if c < 0x20 \<or> isLeadingSurrogate c \<or> isTrailingSurrogate c then UnicodeEscape c
      else [c])"

fun quote_units :: "jsstring \<Rightarrow> jsstring" where
  "quote_units [] = []"
| "quote_units [c] = quote_unit c"
| "quote_units (c # d # cs) =
     (if isLeadingSurrogate c \<and> isTrailingSurrogate d then c # d # quote_units cs
      else quote_unit c @ quote_units (d # cs))"

definition QuoteJSONString :: "jsstring \<Rightarrow> jsstring" where
  "QuoteJSONString s = [0x22] @ quote_units s @ [0x22]"

definition stringify_task :: "task \<Rightarrow> jsstring" where
  "stringify_task t =
     str ''{\"id\":'' @ QuoteJSONString (task_id t) @
     str '',\"text\":'' @ QuoteJSONString (task_text t) @
     str '',\"completed\":'' @ (if completed t then str ''true'' else str ''false'') @
     str '',\"createdAt\":'' @ QuoteJSONString (createdAt t) @ str ''}''"

fun join_comma :: "jsstring list \<Rightarrow> jsstring" where
  "join_comma [] = []"
| "join_comma [x] = x"
| "join_comma (x # y # xs) = x @ 0x2C # join_comma (y # xs)"

definition JSON_stringify :: "task list \<Rightarrow> jsstring" where
  "JSON_stringify ts = 0x5B # join_comma (map stringify_task ts) @ [0x5D]"

section \<open>Persistence: \<^verbatim>\<open>JSON.parse\<close>\<close>

text \<open>
  What \<^verbatim>\<open>JSON.parse\<close> returns. A number is kept as the text that denotes it: the
  program never computes with a parsed number, and the double it denotes is outside this
  embedding. An object is the list of its properties, each key once, in the order in which
  the keys first occur in the text (the order in which an engine enumerates keys that look
  like array indices is not represented).
\<close>

datatype jsval =
    JNull
  | JBool bool
  | JNumber jsstring
  | JString jsstring
  | JArray "jsval list"
  | JObject "(jsstring \<times> jsval) list"

text \<open>A task object and an array of them, as JavaScript values, and the way back.\<close>

definition task_value :: "task \<Rightarrow> jsval" where
  "task_value t =
     JObject [(str ''id'', JString (task_id t)), (str ''text'', JString (task_text t)),
              (str ''completed'', JBool (completed t)), (str ''createdAt'', JString (createdAt t))]"

definition tasks_value :: "task list \<Rightarrow> jsval" where
  "tasks_value ts = JArray (map task_value ts)"

definition as_task :: "jsval \<Rightarrow> task option" where
  "as_task v =
     (case v of
        JObject ps \<Rightarrow>
          (case (map_of ps (str ''id''), map_of ps (str ''text''),
                 map_of ps (str ''completed''), map_of ps (str ''createdAt'')) of
             (Some (JString i), Some (JString t), Some (JBool c), Some (JString d)) \<Rightarrow>
               Some \<lparr>task_id = i, task_text = t, completed = c, createdAt = d\<rparr>
           | _ \<Rightarrow> None)
      | _ \<Rightarrow> None)"

fun as_task_list :: "jsval list \<Rightarrow> task list option" where
  "as_task_list [] = Some []"
| "as_task_list (v # vs) =
     (case as_task v of
        None \<Rightarrow> None
      | Some t \<Rightarrow> map_option (\<lambda>ts. t # ts) (as_task_list vs))"

definition as_tasks :: "jsval \<Rightarrow> task list option" where
  "as_tasks v = (case v of JArray vs \<Rightarrow> as_task_list vs | _ \<Rightarrow> None)"

subsection \<open>The JSON grammar\<close>

text \<open>
  A recursive-descent reading of the JSON grammar of ECMA-404, which \<^verbatim>\<open>JSON.parse\<close>
  accepts: white space is TAB, LF, CR and SPACE; a string holds any code unit from U+0020
  on except the quotation mark and the backslash, and the escapes
  \<^verbatim>\<open>\" \\ \/ \b \f \n \r \t\<close> and \<^verbatim>\<open>\u\<close> with four hexadecimal digits. Every function
  returns what it read and the rest of the text, or \<open>None\<close> where \<^verbatim>\<open>JSON.parse\<close> throws
  a SyntaxError.
\<close>

definition isJSONWhiteSpace :: "code_unit \<Rightarrow> bool" where
  "isJSONWhiteSpace c \<longleftrightarrow> c = 0x09 \<or> c = 0x0A \<or> c = 0x0D \<or> c = 0x20"

definition skip_ws :: "jsstring \<Rightarrow> jsstring" where
  "skip_ws cs = dropWhile isJSONWhiteSpace cs"

definition hexval :: "code_unit \<Rightarrow> nat option" where
  "hexval h =
     (let n = unat h in
      if 48 \<le> n \<and> n \<le> 57 then Some (n - 48)
      else if 65 \<le> n \<and> n \<le> 70 then Some (n - 55)
      else if 97 \<le> n \<and> n \<le> 102 then Some (n - 87)
      else None)"

definition unhex4 :: "code_unit \<Rightarrow> code_unit \<Rightarrow> code_unit \<Rightarrow> code_unit \<Rightarrow> code_unit option" where
  "unhex4 h1 h2 h3 h4 =
     (case (hexval h1, hexval h2, hexval h3, hexval h4) of
        (Some a, Some b, Some c, Some d) \<Rightarrow> Some (of_nat (4096 * a + 256 * b + 16 * c + d))
      | _ \<Rightarrow> None)"

definition unescape :: "code_unit \<Rightarrow> code_unit option" where
  "unescape c =
     (if c = 0x22 then Some 0x22
      else if c = 0x5C then Some 0x5C
      else if c = 0x2F then Some 0x2F
      else if c = 0x62 then Some 0x08
      else if c = 0x66 then Some 0x0C
      else if c = 0x6E then Some 0x0A
      else if c = 0x72 then Some 0x0D
      else if c = 0x74 then Some 0x09
      else None)"

definition prepend :: "code_unit \<Rightarrow> (jsstring \<times> jsstring) option \<Rightarrow> (jsstring \<times> jsstring) option" where
  "prepend c r = map_option (\<lambda>(s, rest). (c # s, rest)) r"

text \<open>The characters of a string, after its opening quotation mark.\<close>

fun parse_chars :: "jsstring \<Rightarrow> (jsstring \<times> jsstring) option" where
  "parse_chars [] = None"
| "parse_chars (c # cs) =
     (if c = 0x22 then Some ([], cs)
      else if c = 0x5C then
        (case cs of
           [] \<Rightarrow> None
         | x # r \<Rightarrow>
             if x = 0x75 then
               (case r of
                  h1 # h2 # h3 # h4 # r' \<Rightarrow>
                    (case unhex4 h1 h2 h3 h4 of
                       None \<Rightarrow> None
                     | Some u \<Rightarrow> prepend u (parse_chars r'))
                | _ \<Rightarrow> None)
             else
               (case unescape x of
                  None \<Rightarrow> None
                | Some u \<Rightarrow> prepend u (parse_chars r)))
      else if c < 0x20 then None
      else prepend c (parse_chars cs))"

text \<open>
  A number: an optional minus sign, \<^verbatim>\<open>0\<close> or a digit sequence that does not start with
  \<^verbatim>\<open>0\<close>, an optional fraction and an optional exponent.
\<close>

definition isDigit :: "code_unit \<Rightarrow> bool" where
  "isDigit c \<longleftrightarrow> 0x30 \<le> c \<and> c \<le> 0x39"

definition scan_digits :: "jsstring \<Rightarrow> (jsstring \<times> jsstring) option" where
  "scan_digits cs =
     (if takeWhile isDigit cs = [] then None
      else Some (takeWhile isDigit cs, dropWhile isDigit cs))"

definition scan_int :: "jsstring \<Rightarrow> (jsstring \<times> jsstring) option" where
  "scan_int cs =
     (case cs of
        [] \<Rightarrow> None
      | c # r \<Rightarrow> if c = 0x30 then Some ([c], r) else scan_digits cs)"

definition scan_frac :: "jsstring \<Rightarrow> (jsstring \<times> jsstring) option" where
  "scan_frac cs =
     (case cs of
        [] \<Rightarrow> Some ([], cs)
      | c # r \<Rightarrow>
          if c = 0x2E then map_option (\<lambda>(ds, rest). (c # ds, rest)) (scan_digits r)
          else Some ([], cs))"

definition scan_exp :: "jsstring \<Rightarrow> (jsstring \<times> jsstring) option" where
  "scan_exp cs =
     (case cs of
        [] \<Rightarrow> Some ([], cs)
      | c # r \<Rightarrow>
          if c = 0x65 \<or> c = 0x45 then
            (case r of
               [] \<Rightarrow> None
             | g # r' \<Rightarrow>
                 if g = 0x2B \<or> g = 0x2D
                 then map_option (\<lambda>(ds, rest). (c # g # ds, rest)) (scan_digits r')
                 else map_option (\<lambda>(ds, rest). (c # ds, rest)) (scan_digits r))
          else Some ([], cs))"

definition scan_number :: "jsstring \<Rightarrow> (jsstring \<times> jsstring) option" where
  "scan_number cs =
     (let (sign, r0) =
            (case cs of [] \<Rightarrow> ([], cs) | c # r \<Rightarrow> if c = 0x2D then ([c], r) else ([], cs))
      in case scan_int r0 of
           None \<Rightarrow> None
         | Some (ip, r1) \<Rightarrow>
             (case scan_frac r1 of
                None \<Rightarrow> None
              | Some (fp, r2) \<Rightarrow>
                  (case scan_exp r2 of
                     None \<Rightarrow> None
                   | Some (ep, r3) \<Rightarrow> Some (sign @ ip @ fp @ ep, r3))))"

text \<open>A later member with the key of an earlier one replaces its value.\<close>

fun set_property :: "jsstring \<Rightarrow> jsval \<Rightarrow> (jsstring \<times> jsval) list \<Rightarrow> (jsstring \<times> jsval) list" where
  "set_property k v [] = [(k, v)]"
| "set_property k v ((k', v') # ps) =
     (if k' = k then (k, v) # ps else (k', v') # set_property k v ps)"

text \<open>
  Values, the elements of an array after its opening bracket, and the members of an
  object after its opening brace. Where a function goes on with the rest that another
  one returned, it first checks that this rest is shorter than what that one was given:
  that is what makes the recursion terminate, and the check never fails
  (\<open>parse_elements_unguarded\<close> and \<open>parse_members_unguarded\<close> below).
\<close>

function parse_value :: "jsstring \<Rightarrow> (jsval \<times> jsstring) option"
  and parse_elements :: "jsval list \<Rightarrow> jsstring \<Rightarrow> (jsval list \<times> jsstring) option"
  and parse_members ::
    "(jsstring \<times> jsval) list \<Rightarrow> jsstring \<Rightarrow> ((jsstring \<times> jsval) list \<times> jsstring) option"
where
  "parse_value cs =
     (case skip_ws cs of
        [] \<Rightarrow> None
      | c # r \<Rightarrow>
          if c = 0x5B then
            (case skip_ws r of
               [] \<Rightarrow> None
             | d # r' \<Rightarrow>
                 if d = 0x5D then Some (JArray [], r')
                 else map_option (\<lambda>(vs, rest). (JArray vs, rest)) (parse_elements [] r))
          else if c = 0x7B then
            (case skip_ws r of
               [] \<Rightarrow> None
             | d # r' \<Rightarrow>
                 if d = 0x7D then Some (JObject [], r')
                 else map_option (\<lambda>(ps, rest). (JObject ps, rest)) (parse_members [] r))
          else if c = 0x22 then map_option (\<lambda>(s, rest). (JString s, rest)) (parse_chars r)
          else if take 4 (c # r) = str ''true'' then Some (JBool True, drop 4 (c # r))
          else if take 5 (c # r) = str ''false'' then Some (JBool False, drop 5 (c # r))
          else if take 4 (c # r) = str ''null'' then Some (JNull, drop 4 (c # r))
          else map_option (\<lambda>(n, rest). (JNumber n, rest)) (scan_number (c # r)))"
| "parse_elements acc cs =
     (case parse_value cs of
        None \<Rightarrow> None
      | Some (v, r) \<Rightarrow>
          if length r < length cs then
            (case skip_ws r of
               [] \<Rightarrow> None
             | d # r' \<Rightarrow>
                 if d = 0x2C then parse_elements (acc @ [v]) r'
                 else if d = 0x5D then Some (acc @ [v], r')
                 else None)
          else None)"
| "parse_members acc cs =
     (case skip_ws cs of
        [] \<Rightarrow> None
      | q # r \<Rightarrow>
          if q = 0x22 then
            (case parse_chars r of
               None \<Rightarrow> None
             | Some (k, r1) \<Rightarrow>
                 (case skip_ws r1 of
                    [] \<Rightarrow> None
                  | col # r2 \<Rightarrow>
                      if col = 0x3A then
                        (case parse_value r2 of
                           None \<Rightarrow> None
                         | Some (v, r3) \<Rightarrow>
                             if length r3 < length r2 then
                               (case skip_ws r3 of
                                  [] \<Rightarrow> None
                                | d # r4 \<Rightarrow>
                                    if d = 0x2C then parse_members (set_property k v acc) r4
                                    else if d = 0x7D then Some (set_property k v acc, r4)
                                    else None)
                             else None)
                      else None))
          else None)"
  by pat_completeness auto
termination
proof -
  have ws: "length b < length a" if "skip_ws a = d # b" for a b :: jsstring and d
  proof -
    have "length (skip_ws a) \<le> length a"
      by (simp add: skip_ws_def length_dropWhile_le)
    with that show ?thesis by simp
  qed
  have chars: "length r < length cs" if "parse_chars cs = Some (s, r)" for cs s r
    using that
  proof (induction cs arbitrary: s r rule: parse_chars.induct)
    case 1
    then show ?case by simp
  next
    case (2 c cs)
    then show ?case
      by (fastforce simp: prepend_def split: if_splits list.splits option.splits)
  qed
  show ?thesis
  proof (relation "measure (\<lambda>x. case x of
            Inl cs \<Rightarrow> 2 * length cs
          | Inr (Inl (acc, cs)) \<Rightarrow> 2 * length cs + 1
          | Inr (Inr (acc, cs)) \<Rightarrow> 2 * length cs + 1)", goal_cases)
    case 1
    then show ?case by simp
  next
    case (2 cs c r d r')
    then show ?case by (auto dest: ws)
  next
    case (3 cs c r d r')
    then show ?case by (auto dest: ws)
  next
    case (4 acc cs)
    then show ?case by simp
  next
    case (5 acc cs x v r d r')
    then show ?case by (auto dest: ws)
  next
    case (6 acc cs q r k_r1 k r1 col r2)
    then show ?case by (auto dest!: ws chars)
  next
    case (7 acc cs q r k_r1 k r1 col r2 x v r3 d r4)
    then show ?case by (auto dest!: ws chars)
  qed
qed

declare parse_value.simps [simp del] parse_elements.simps [simp del] parse_members.simps [simp del]

text \<open>\<^verbatim>\<open>JSON.parse(text)\<close>: one value, with nothing but white space after it.\<close>

definition JSON_parse :: "jsstring \<Rightarrow> js_error + jsval" where
  "JSON_parse src =
     (case parse_value src of
        None \<Rightarrow> Inl SyntaxError
      | Some (v, r) \<Rightarrow> if skip_ws r = [] then Inr v else Inl SyntaxError)"

section \<open>The program\<close>

subsection \<open>Projection and rendering\<close>

definition filteredTasks :: "app \<Rightarrow> task list" where
  "filteredTasks s =
     (if currentFilter s = str ''active'' then filter (\<lambda>t. \<not> completed t) (tasks s)
      else if currentFilter s = str ''completed'' then filter (\<lambda>t. completed t) (tasks s)
      else tasks s)"

text \<open>
  \<^verbatim>\<open>text.replace(/[&<>"']/g, f)\<close>: every code unit of the class is replaced by what
  the callback returns for it, every other one is copied. The callback looks the
  character up in an object literal; a key that is missing there would read
  \<^verbatim>\<open>undefined\<close>, which \<^verbatim>\<open>replace\<close> inserts as the string "undefined".
\<close>

primrec replace_class :: "jsstring \<Rightarrow> (code_unit \<Rightarrow> jsstring) \<Rightarrow> jsstring \<Rightarrow> jsstring" where
  "replace_class cls f [] = []"
| "replace_class cls f (c # cs) = (if c \<in> set cls then f c else [c]) @ replace_class cls f cs"

definition entities :: "(code_unit \<times> jsstring) list" where
  "entities =
     [(0x26, str ''&amp;''), (0x3C, str ''&lt;''), (0x3E, str ''&gt;''),
      (0x22, str ''&quot;''), (0x27, str ''&#39;'')]"

definition escapeHtml :: "jsstring \<Rightarrow> jsstring" where
  "escapeHtml text_arg =
     replace_class (str ''&<>\"'' @ [0x27])
       (\<lambda>c. case map_of entities c of Some r \<Rightarrow> r | None \<Rightarrow> str ''undefined'') text_arg"

text \<open>
  \<^verbatim>\<open>timeAgo\<close>: time values are integral milliseconds, so
  \<^verbatim>\<open>Math.floor((now - d) / 1000)\<close> is the floor quotient (the division is exact
  enough for that while the two dates are less than \<open>2^43\<close> seconds apart, as any valid
  date is from a clock near the present). An invalid date has the time value NaN: every
  comparison with it is false and the last branch prints \<^verbatim>\<open>NaNd\<close>.
\<close>

definition timeAgo :: "env \<Rightarrow> jsstring \<Rightarrow> jsstring" where
  "timeAgo e stamp =
     (case Date_getTime e stamp of
        None \<Rightarrow> str ''NaNd''
      | Some d \<Rightarrow>
          (let diff = (timeAgo_now e - d) div 1000 in
           if diff < 60 then Number_toString diff @ str ''s''
           else if diff < 3600 then Number_toString (diff div 60) @ str ''m''
           else if diff < 86400 then Number_toString (diff div 3600) @ str ''h''
           else Number_toString (diff div 86400) @ str ''d''))"

text \<open>The template literal assigned to \<^verbatim>\<open>li.innerHTML\<close>, in two parts around the task's text.\<close>

definition item_head :: "task \<Rightarrow> jsstring" where
  "item_head t =
     str ''\<newline>      <div class=\"task-left\">\<newline>        <div class=\"checkbox '' @
     (if completed t then str ''checked'' else []) @
     str ''\" role=\"button\" tabindex=\"0\" aria-pressed=\"'' @
     (if completed t then str ''true'' else str ''false'') @
     str ''\">\<newline>          '' @
     (if completed t then str ''&#10003;'' else []) @
     str ''\<newline>        </div>\<newline>        <div class=\"task-text '' @
     (if completed t then str ''completed'' else []) @
     str ''\">''"

definition item_tail :: "env \<Rightarrow> task \<Rightarrow> jsstring" where
  "item_tail e t =
     str ''</div>\<newline>      </div>\<newline>      <div class=\"task-meta\">\<newline>        <div class=\"task-time\" title=\"'' @
     Date_toLocaleString e (createdAt t) @
     str ''\">'' @
     timeAgo e (createdAt t) @
     str ''</div>\<newline>        <button class=\"btn-icon btn-delete\" aria-label=\"Delete task\">'' @
     [0xD83D, 0xDDD1] @
     str ''</button>\<newline>      </div>\<newline>    ''"

definition item_html :: "env \<Rightarrow> task \<Rightarrow> jsstring" where
  "item_html e t = item_head t @ escapeHtml (task_text t) @ item_tail e t"

definition render_item :: "env \<Rightarrow> task \<Rightarrow> li" where
  "render_item e t =
     \<lparr>className = str ''task-item'', dataset_id = task_id t, innerHTML = item_html e t\<rparr>"

definition updateLeftInfo :: "app \<Rightarrow> app" where
  "updateLeftInfo s =
     (let total = length (tasks s);
          activeCount = length (filter (\<lambda>t. \<not> completed t) (tasks s))
      in s\<lparr>dom := (dom s)
             \<lparr>leftInfo_textContent :=
                digits activeCount @ str '' active '' @ [0x2022] @ str '' '' @
                digits total @ str '' total''\<rparr>\<rparr>)"

definition render :: "env \<Rightarrow> app \<Rightarrow> app" where
  "render e s =
     (let list = filteredTasks s in
      updateLeftInfo
        (s\<lparr>dom := (dom s)
             \<lparr>list_children := map (render_item e) list,
              emptyState_display := (if length list = 0 then str ''block'' else str ''none'')\<rparr>\<rparr>))"

subsection \<open>Saving\<close>

text \<open>
  \<^verbatim>\<open>saveToStorage\<close>: the \<^verbatim>\<open>try\<close> block either completes the write or throws; the
  \<^verbatim>\<open>catch\<close> block logs and returns.
\<close>

definition saveToStorage :: "env \<Rightarrow> app \<Rightarrow> app" where
  "saveToStorage e s =
     (case setItem e (localStorage s) STORAGE_KEY (JSON_stringify (tasks s)) of
        Inr st \<Rightarrow>
          s\<lparr>localStorage := st,
            trace := trace s @ [SetItem STORAGE_KEY (JSON_stringify (tasks s))]\<rparr>
      | Inl x \<Rightarrow>
          s\<lparr>trace := trace s @ [ConsoleError (str ''LocalStorage save failed'') (DOMException x)]\<rparr>)"

subsection \<open>Loading\<close>

text \<open>
  \<^verbatim>\<open>loadFromStorage\<close> assigns to \<^verbatim>\<open>tasks\<close> whatever \<^verbatim>\<open>JSON.parse\<close> returns, so it
  is modelled on JavaScript values: it takes the value that \<^verbatim>\<open>tasks\<close> holds (\<open>JArray []\<close>
  when \<^verbatim>\<open>init\<close> calls it, from \<^verbatim>\<open>let tasks = []\<close>) and returns the value it holds
  afterwards, with the effects. \<^verbatim>\<open>if (raw)\<close> skips the assignment when the key is
  missing (\<^verbatim>\<open>getItem\<close> returns null) and when the stored string is empty. The handlers
  are modelled on the states in which \<^verbatim>\<open>tasks\<close> is an array of task objects, the
  values that \<open>as_tasks\<close> reads back as a task list.
\<close>

definition loadFromStorage :: "env \<Rightarrow> storage \<Rightarrow> jsval \<Rightarrow> jsval \<times> effect list" where
  "loadFromStorage e st cur =
     (case getItem e st STORAGE_KEY of
        Inl x \<Rightarrow>
          (JArray [], [ConsoleError (str ''LocalStorage load failed'') (DOMException x)])
      | Inr None \<Rightarrow> (cur, [])
      | Inr (Some raw) \<Rightarrow>
          if raw = [] then (cur, [])
          else
            (case JSON_parse raw of
               Inl err \<Rightarrow> (JArray [], [ConsoleError (str ''LocalStorage load failed'') err])
             | Inr v \<Rightarrow> (v, [])))"

subsection \<open>The handlers\<close>

definition onAdd :: "env \<Rightarrow> app \<Rightarrow> app" where
  "onAdd e s =
     (let text_v = trim (input_value s) in
      if text_v = [] then s
      else
        (let task_v = \<lparr>task_id = Number_toString (Date_now e), task_text = text_v,
                       completed = False, createdAt = Date_toISOString e\<rparr>
         in render e (saveToStorage e (s\<lparr>tasks := task_v # tasks s, input_value := []\<rparr>))))"

definition toggleTask :: "env \<Rightarrow> jsstring \<Rightarrow> app \<Rightarrow> app" where
  "toggleTask e i s =
     render e (saveToStorage e
       (s\<lparr>tasks := map (\<lambda>t. if task_id t = i then t\<lparr>completed := \<not> completed t\<rparr> else t) (tasks s)\<rparr>))"

definition removeTask :: "env \<Rightarrow> jsstring \<Rightarrow> app \<Rightarrow> app" where
  "removeTask e i s =
     render e (saveToStorage e (s\<lparr>tasks := filter (\<lambda>t. task_id t \<noteq> i) (tasks s)\<rparr>))"

definition clearCompleted :: "env \<Rightarrow> app \<Rightarrow> app" where
  "clearCompleted e s =
     (let any = list_ex (\<lambda>t. completed t) (tasks s) in
      if \<not> any then s
      else
        (let s1 = s\<lparr>trace := trace s @ [Confirm (str ''Clear all completed tasks?'') (confirm_answer e)]\<rparr>
         in if \<not> confirm_answer e then s1
            else render e (saveToStorage e (s1\<lparr>tasks := filter (\<lambda>t. \<not> completed t) (tasks s1)\<rparr>))))"

section \<open>Sessions\<close>





section \<open>The escaping that the specification asks for\<close>

text \<open>
  After the specification's words, not the source: each of the five characters
  \<^verbatim>\<open>& < > " '\<close> becomes its HTML entity and every other character stays as it is.
  \<open>escapeHtml\<close> above is compared with it.
\<close>

definition spec_entity :: "code_unit \<Rightarrow> jsstring" where
  "spec_entity c =
     (if c = 0x26 then str ''&amp;''
      else if c = 0x3C then str ''&lt;''
      else if c = 0x3E then str ''&gt;''
      else if c = 0x22 then str ''&quot;''
      else if c = 0x27 then str ''&#39;''
      else [c])"

definition spec_escape :: "jsstring \<Rightarrow> jsstring" where
  "spec_escape s = concat (map spec_entity s)"

section \<open>Concrete values\<close>

text \<open>
  The state in which the script starts (\<^verbatim>\<open>let tasks = []; let currentFilter = 'all';\<close>,
  an empty input field, nothing stored, nothing rendered), an environment in which
  storage works and the user confirms, and a collection of one completed and one active
  task.
\<close>

definition start :: app where
  "start =
     \<lparr>tasks = [], currentFilter = str ''all'', input_value = [], localStorage = Map.empty,
      dom = \<lparr>list_children = [], emptyState_display = [], leftInfo_textContent = []\<rparr>,
      trace = []\<rparr>"

definition env0 :: env where
  "env0 =
     \<lparr>Date_now = 1700000000000, Date_toISOString = str ''2023-11-14T22:13:20.000Z'',
      timeAgo_now = 1700000000000, storage_fault = None, confirm_answer = True,
      Date_getTime = (\<lambda>_. None), Date_toLocaleString = (\<lambda>_. str ''Invalid Date'')\<rparr>"

definition two_tasks :: "task list" where
  "two_tasks =
     [\<lparr>task_id = str ''2'', task_text = str ''b'', completed = True, createdAt = str ''t2''\<rparr>,
      \<lparr>task_id = str ''1'', task_text = str ''a'', completed = False, createdAt = str ''t1''\<rparr>]"

section \<open>Properties of the task store\<close>

subsection \<open>What rendering and saving leave alone\<close>

lemma tasks_render: "tasks (render e s) = tasks s"
  by (simp add: render_def updateLeftInfo_def Let_def)

lemma localStorage_render: "localStorage (render e s) = localStorage s"
  by (simp add: render_def updateLeftInfo_def Let_def)

lemma tasks_saveToStorage: "tasks (saveToStorage e s) = tasks s"
  by (simp add: saveToStorage_def split: sum.splits)

lemma tasks_onAdd:
  "tasks (onAdd e s) =
     (if trim (input_value s) = [] then tasks s
      else \<lparr>task_id = Number_toString (Date_now e), task_text = trim (input_value s),
            completed = False, createdAt = Date_toISOString e\<rparr> # tasks s)"
  by (simp add: onAdd_def Let_def tasks_render tasks_saveToStorage)

lemma tasks_toggleTask:
  "tasks (toggleTask e i s) =
     map (\<lambda>t. if task_id t = i then t\<lparr>completed := \<not> completed t\<rparr> else t) (tasks s)"
  by (simp add: toggleTask_def tasks_render tasks_saveToStorage)

lemma tasks_removeTask: "tasks (removeTask e i s) = filter (\<lambda>t. task_id t \<noteq> i) (tasks s)"
  by (simp add: removeTask_def tasks_render tasks_saveToStorage)


subsection \<open>Evaluation of the concrete values\<close>

lemma Number_toString_example:
  "Number_toString 1700000000000 = str ''1700000000000''"
  "Number_toString 1700000000001 = str ''1700000000001''"
  "Number_toString 1700000000002 = str ''1700000000002''"
  by (simp_all add: Number_toString_def digits.simps str_def digit_def)

lemma trim_examples:
  "trim (str ''  Buy milk '') = str ''Buy milk''"
  "trim (str ''   '') = []"
  "trim (str ''a'') = str ''a''"
  "trim (str ''b'') = str ''b''"
  "trim (str ''c'') = str ''c''"
  by (simp_all add: trim_def str_def isTrimSpace_def)

lemma str_nonempty:
  "str ''Buy milk'' \<noteq> []" "str ''a'' \<noteq> []" "str ''b'' \<noteq> []"
  "str ''{}'' \<noteq> []" "str ''[1,2]'' \<noteq> []" "str ''c'' \<noteq> []"
  by (simp_all add: str_def)

lemma filter_names:
  "str ''all'' \<noteq> str ''active''" "str ''all'' \<noteq> str ''completed''"
  "str ''active'' \<noteq> str ''completed''"
  by (simp_all add: str_def)

subsection \<open>Adding\<close>

text \<open>
  Claim C1. When the trimmed input is not empty, \<^verbatim>\<open>onAdd\<close> puts one new task in front
  of the collection, which grows by exactly one: the task has the trimmed text,
  \<open>completed = False\<close>, the id printed from \<^verbatim>\<open>Date.now()\<close> and the timestamp read
  from the clock. When the trimmed input is empty, the state (and so the collection) is
  what it was.
\<close>

theorem onAdd_prepends:
  "(trim (input_value s) \<noteq> [] \<longrightarrow>
      tasks (onAdd e s) =
        \<lparr>task_id = Number_toString (Date_now e), task_text = trim (input_value s),
         completed = False, createdAt = Date_toISOString e\<rparr> # tasks s
      \<and> length (tasks (onAdd e s)) = length (tasks s) + 1)
   \<and> (trim (input_value s) = [] \<longrightarrow> onAdd e s = s)"
proof -
  have added: "tasks (onAdd e s) =
        \<lparr>task_id = Number_toString (Date_now e), task_text = trim (input_value s),
         completed = False, createdAt = Date_toISOString e\<rparr> # tasks s"
    if "trim (input_value s) \<noteq> []"
    using that by (simp add: tasks_onAdd)
  have ignored: "onAdd e s = s" if "trim (input_value s) = []"
    using that by (simp add: onAdd_def)
  from added ignored show ?thesis
    by simp
qed

theorem onAdd_prepends_witness:
  "trim (input_value (start\<lparr>input_value := str ''  Buy milk ''\<rparr>)) \<noteq> []
   \<and> tasks (onAdd env0 (start\<lparr>input_value := str ''  Buy milk ''\<rparr>)) =
       [\<lparr>task_id = str ''1700000000000'', task_text = str ''Buy milk'', completed = False,
         createdAt = str ''2023-11-14T22:13:20.000Z''\<rparr>]
   \<and> trim (input_value (start\<lparr>input_value := str ''   ''\<rparr>)) = []
   \<and> onAdd env0 (start\<lparr>input_value := str ''   ''\<rparr>) = start\<lparr>input_value := str ''   ''\<rparr>"
  using onAdd_prepends [of "start\<lparr>input_value := str ''  Buy milk ''\<rparr>" env0]
    onAdd_prepends [of "start\<lparr>input_value := str ''   ''\<rparr>" env0]
  by (simp add: trim_examples str_nonempty Number_toString_example start_def env0_def)

subsection \<open>The projection\<close>

text \<open>
  Claim C2. \<^verbatim>\<open>filteredTasks\<close> depends on the collection and the filter mode only. With
  the filter \<^verbatim>\<open>all\<close> it is the whole collection, with \<^verbatim>\<open>active\<close> the tasks with
  \<open>completed = False\<close>, with \<^verbatim>\<open>completed\<close> those with \<open>completed = True\<close>; in each
  case the tasks stand in the order of the collection (the result is a subsequence of
  it), and rendering, which computes the projection, leaves the collection as it was.
\<close>

theorem filteredTasks_projection:
  "(currentFilter s = str ''all'' \<longrightarrow> filteredTasks s = tasks s)
   \<and> (currentFilter s = str ''active'' \<longrightarrow>
        filteredTasks s = filter (\<lambda>t. completed t = False) (tasks s))
   \<and> (currentFilter s = str ''completed'' \<longrightarrow>
        filteredTasks s = filter (\<lambda>t. completed t = True) (tasks s))
   \<and> subseq (filteredTasks s) (tasks s)
   \<and> (tasks s' = tasks s \<and> currentFilter s' = currentFilter s \<longrightarrow>
        filteredTasks s' = filteredTasks s)
   \<and> tasks (render e s) = tasks s"
proof -
  have modes:
    "currentFilter s = str ''all'' \<Longrightarrow> filteredTasks s = tasks s"
    "currentFilter s = str ''active'' \<Longrightarrow>
       filteredTasks s = filter (\<lambda>t. completed t = False) (tasks s)"
    "currentFilter s = str ''completed'' \<Longrightarrow>
       filteredTasks s = filter (\<lambda>t. completed t = True) (tasks s)"
    by (simp_all add: filteredTasks_def filter_names filter_names [symmetric])
  have ordered: "subseq (filteredTasks s) (tasks s)"
    by (simp add: filteredTasks_def)
  have pure: "filteredTasks s' = filteredTasks s"
    if "tasks s' = tasks s \<and> currentFilter s' = currentFilter s"
    using that by (simp add: filteredTasks_def)
  from modes ordered pure tasks_render [of e s] show ?thesis
    by blast
qed

theorem filteredTasks_projection_witness:
  "filteredTasks (start\<lparr>tasks := two_tasks\<rparr>) = two_tasks
   \<and> filteredTasks (start\<lparr>tasks := two_tasks, currentFilter := str ''active''\<rparr>) = [two_tasks ! 1]
   \<and> filteredTasks (start\<lparr>tasks := two_tasks, currentFilter := str ''completed''\<rparr>) = [two_tasks ! 0]
   \<and> filteredTasks (start\<lparr>tasks := two_tasks, input_value := str ''x''\<rparr>) =
       filteredTasks (start\<lparr>tasks := two_tasks\<rparr>)"
  using filteredTasks_projection [of "start\<lparr>tasks := two_tasks\<rparr>"
      "start\<lparr>tasks := two_tasks, input_value := str ''x''\<rparr>" env0]
    filteredTasks_projection [of "start\<lparr>tasks := two_tasks, currentFilter := str ''active''\<rparr>"
      start env0]
    filteredTasks_projection [of "start\<lparr>tasks := two_tasks, currentFilter := str ''completed''\<rparr>"
      start env0]
  by (simp add: start_def two_tasks_def)

subsection \<open>Clearing the completed tasks\<close>

text \<open>
  Claim C6. When some task is completed and the user confirms, \<^verbatim>\<open>clearCompleted\<close>
  keeps exactly the tasks that are not completed, in their order. When no task is
  completed the whole state is what it was: no dialog, no write, no log. When the user
  declines, the only change is the dialog in the trace: the collection and the storage
  are what they were.
\<close>

theorem clearCompleted_cases:
  "(list_ex completed (tasks s) \<and> confirm_answer e \<longrightarrow>
      tasks (clearCompleted e s) = filter (\<lambda>t. \<not> completed t) (tasks s)
      \<and> subseq (tasks (clearCompleted e s)) (tasks s))
   \<and> (\<not> list_ex completed (tasks s) \<longrightarrow> clearCompleted e s = s)
   \<and> (list_ex completed (tasks s) \<and> \<not> confirm_answer e \<longrightarrow>
        clearCompleted e s =
          s\<lparr>trace := trace s @ [Confirm (str ''Clear all completed tasks?'') False]\<rparr>)
   \<and> (\<not> confirm_answer e \<longrightarrow>
        tasks (clearCompleted e s) = tasks s
        \<and> localStorage (clearCompleted e s) = localStorage s)"
proof -
  have confirmed: "tasks (clearCompleted e s) = filter (\<lambda>t. \<not> completed t) (tasks s)"
    if "list_ex completed (tasks s) \<and> confirm_answer e"
    using that by (simp add: clearCompleted_def Let_def tasks_render tasks_saveToStorage)
  have none: "clearCompleted e s = s" if "\<not> list_ex completed (tasks s)"
    using that by (simp add: clearCompleted_def)
  have declined: "clearCompleted e s =
        s\<lparr>trace := trace s @ [Confirm (str ''Clear all completed tasks?'') False]\<rparr>"
    if "list_ex completed (tasks s) \<and> \<not> confirm_answer e"
    using that by (simp add: clearCompleted_def Let_def)
  have kept: "tasks (clearCompleted e s) = tasks s
      \<and> localStorage (clearCompleted e s) = localStorage s"
    if "\<not> confirm_answer e"
    using that by (cases "list_ex completed (tasks s)") (simp_all add: none declined)
  from confirmed none declined kept show ?thesis
    by simp
qed

theorem clearCompleted_cases_witness:
  "list_ex completed (tasks (start\<lparr>tasks := two_tasks\<rparr>)) \<and> confirm_answer env0
   \<and> tasks (clearCompleted env0 (start\<lparr>tasks := two_tasks\<rparr>)) = [two_tasks ! 1]
   \<and> \<not> list_ex completed (tasks start) \<and> clearCompleted env0 start = start
   \<and> \<not> confirm_answer (env0\<lparr>confirm_answer := False\<rparr>)
   \<and> tasks (clearCompleted (env0\<lparr>confirm_answer := False\<rparr>) (start\<lparr>tasks := two_tasks\<rparr>)) =
       two_tasks
   \<and> localStorage (clearCompleted (env0\<lparr>confirm_answer := False\<rparr>) (start\<lparr>tasks := two_tasks\<rparr>)) =
       Map.empty"
  using clearCompleted_cases [of "start\<lparr>tasks := two_tasks\<rparr>" env0]
    clearCompleted_cases [of start env0]
    clearCompleted_cases [of "start\<lparr>tasks := two_tasks\<rparr>" "env0\<lparr>confirm_answer := False\<rparr>"]
  by (simp add: start_def env0_def two_tasks_def)

subsection \<open>A save that fails\<close>

text \<open>
  Claim C8. When \<^verbatim>\<open>localStorage.setItem\<close> throws, \<^verbatim>\<open>saveToStorage\<close> returns all the
  same, and the state it returns differs from the one it was given only by the logged
  error: the collection, the filter mode and the stored data are what they were. A handler
  whose save fails keeps its change of the collection (here \<^verbatim>\<open>toggleTask\<close>).
\<close>

theorem saveToStorage_failure:
  "storage_fault e = Some x \<longrightarrow>
     saveToStorage e s =
       s\<lparr>trace := trace s @ [ConsoleError (str ''LocalStorage save failed'') (DOMException x)]\<rparr>
     \<and> tasks (saveToStorage e s) = tasks s
     \<and> currentFilter (saveToStorage e s) = currentFilter s
     \<and> localStorage (saveToStorage e s) = localStorage s
     \<and> tasks (toggleTask e i s) =
         map (\<lambda>t. if task_id t = i then t\<lparr>completed := \<not> completed t\<rparr> else t) (tasks s)
     \<and> localStorage (toggleTask e i s) = localStorage s"
proof
  assume fault: "storage_fault e = Some x"
  have caught: "saveToStorage e s' =
      s'\<lparr>trace := trace s' @ [ConsoleError (str ''LocalStorage save failed'') (DOMException x)]\<rparr>"
    for s'
    using fault by (simp add: saveToStorage_def setItem_def)
  have "localStorage (toggleTask e i s) = localStorage s"
    by (simp add: toggleTask_def localStorage_render caught)
  with caught [of s] tasks_toggleTask [of e i s]
  show "saveToStorage e s =
       s\<lparr>trace := trace s @ [ConsoleError (str ''LocalStorage save failed'') (DOMException x)]\<rparr>
     \<and> tasks (saveToStorage e s) = tasks s
     \<and> currentFilter (saveToStorage e s) = currentFilter s
     \<and> localStorage (saveToStorage e s) = localStorage s
     \<and> tasks (toggleTask e i s) =
         map (\<lambda>t. if task_id t = i then t\<lparr>completed := \<not> completed t\<rparr> else t) (tasks s)
     \<and> localStorage (toggleTask e i s) = localStorage s"
    by simp
qed

theorem saveToStorage_failure_witness:
  "storage_fault (env0\<lparr>storage_fault := Some QuotaExceededError\<rparr>) = Some QuotaExceededError
   \<and> saveToStorage (env0\<lparr>storage_fault := Some QuotaExceededError\<rparr>) (start\<lparr>tasks := two_tasks\<rparr>) =
       start\<lparr>tasks := two_tasks,
         trace := [ConsoleError (str ''LocalStorage save failed'') (DOMException QuotaExceededError)]\<rparr>"
  using saveToStorage_failure [of "env0\<lparr>storage_fault := Some QuotaExceededError\<rparr>"
      QuotaExceededError "start\<lparr>tasks := two_tasks\<rparr>" "str ''1''"]
  by (simp add: start_def env0_def)

subsection \<open>Removing and toggling\<close>

text \<open>
  Claim C9. \<^verbatim>\<open>removeTask\<close> keeps exactly the tasks whose id is not the given one, in
  their order; it changes nothing when no task has that id; and removing the same id a
  second time leaves the collection as the first removal left it.
\<close>

theorem removeTask_idempotent:
  "tasks (removeTask e i s) = filter (\<lambda>t. task_id t \<noteq> i) (tasks s)
   \<and> (i \<notin> task_id ` set (tasks s) \<longrightarrow> tasks (removeTask e i s) = tasks s)
   \<and> tasks (removeTask e' i (removeTask e i s)) = tasks (removeTask e i s)"
proof -
  have absent: "tasks (removeTask e i s) = tasks s" if "i \<notin> task_id ` set (tasks s)"
    using that by (auto simp add: tasks_removeTask filter_id_conv)
  have again: "tasks (removeTask e' i (removeTask e i s)) = tasks (removeTask e i s)"
    by (simp add: tasks_removeTask)
  from tasks_removeTask [of e i s] absent again show ?thesis
    by blast
qed

theorem removeTask_idempotent_witness:
  "tasks (removeTask env0 (str ''2'') (start\<lparr>tasks := two_tasks\<rparr>)) = [two_tasks ! 1]
   \<and> str ''3'' \<notin> task_id ` set (tasks (start\<lparr>tasks := two_tasks\<rparr>))
   \<and> tasks (removeTask env0 (str ''3'') (start\<lparr>tasks := two_tasks\<rparr>)) = two_tasks
   \<and> tasks (removeTask env0 (str ''2'') (removeTask env0 (str ''2'') (start\<lparr>tasks := two_tasks\<rparr>))) =
       [two_tasks ! 1]"
  using removeTask_idempotent [of env0 "str ''2''" "start\<lparr>tasks := two_tasks\<rparr>" env0]
    removeTask_idempotent [of env0 "str ''3''" "start\<lparr>tasks := two_tasks\<rparr>" env0]
  by (simp add: start_def two_tasks_def str_def)

text \<open>
  Claim C10. \<^verbatim>\<open>toggleTask\<close> keeps the length and the order of the collection and the
  id, text and createdAt of every task; it negates \<open>completed\<close> on every task whose id
  is the given one (all of them, when several share it) and on no other. Toggling the
  same id twice gives the collection back.
\<close>

theorem toggleTask_frame:
  "length (tasks (toggleTask e i s)) = length (tasks s)
   \<and> map task_id (tasks (toggleTask e i s)) = map task_id (tasks s)
   \<and> map task_text (tasks (toggleTask e i s)) = map task_text (tasks s)
   \<and> map createdAt (tasks (toggleTask e i s)) = map createdAt (tasks s)
   \<and> map completed (tasks (toggleTask e i s)) =
       map (\<lambda>t. if task_id t = i then \<not> completed t else completed t) (tasks s)
   \<and> tasks (toggleTask e' i (toggleTask e i s)) = tasks s"
proof -
  have twice: "tasks (toggleTask e' i (toggleTask e i s)) = tasks s"
    unfolding tasks_toggleTask map_map o_def by (rule map_idI) simp
  have once: "length (tasks (toggleTask e i s)) = length (tasks s)
   \<and> map task_id (tasks (toggleTask e i s)) = map task_id (tasks s)
   \<and> map task_text (tasks (toggleTask e i s)) = map task_text (tasks s)
   \<and> map createdAt (tasks (toggleTask e i s)) = map createdAt (tasks s)
   \<and> map completed (tasks (toggleTask e i s)) =
       map (\<lambda>t. if task_id t = i then \<not> completed t else completed t) (tasks s)"
    by (simp add: tasks_toggleTask o_def cong: map_cong)
  from once twice show ?thesis by blast
qed

theorem toggleTask_frame_witness:
  "tasks (toggleTask env0 (str ''1'') (start\<lparr>tasks := two_tasks\<rparr>)) =
     [two_tasks ! 0, (two_tasks ! 1)\<lparr>completed := True\<rparr>]
   \<and> tasks (toggleTask env0 (str ''1'') (toggleTask env0 (str ''1'') (start\<lparr>tasks := two_tasks\<rparr>))) =
       two_tasks
   \<and> map completed (tasks (toggleTask env0 (str ''2'')
         (start\<lparr>tasks := two_tasks @ [(two_tasks ! 1)\<lparr>task_id := str ''2''\<rparr>]\<rparr>))) =
       [False, False, True]"
  using toggleTask_frame [of env0 "str ''1''" "start\<lparr>tasks := two_tasks\<rparr>" env0]
    toggleTask_frame [of env0 "str ''2''"
      "start\<lparr>tasks := two_tasks @ [(two_tasks ! 1)\<lparr>task_id := str ''2''\<rparr>]\<rparr>" env0]
  by (simp add: tasks_toggleTask start_def two_tasks_def str_def)

section \<open>Properties of the persistence adapter\<close>

subsection \<open>The grammar: what is returned is shorter than what was given\<close>

text \<open>
  So the length checks in \<open>parse_elements\<close> and \<open>parse_members\<close> never fail, and the two
  functions satisfy the equations of the grammar without them.
\<close>

lemma skip_ws_le: "length (skip_ws a) \<le> length a"
  by (simp add: skip_ws_def length_dropWhile_le)

lemma skip_ws_Cons: "skip_ws a = d # b \<Longrightarrow> length b < length a"
  using skip_ws_le [of a] by simp

lemma parse_chars_shorter: "parse_chars cs = Some (s, r) \<Longrightarrow> length r < length cs"
proof (induction cs arbitrary: s r rule: parse_chars.induct)
  case 1
  then show ?case by simp
next
  case (2 c cs)
  then show ?case
    by (fastforce simp: prepend_def split: if_splits list.splits option.splits)
qed

lemma scan_digits_shorter: "scan_digits cs = Some (ds, r) \<Longrightarrow> length r < length cs"
proof -
  assume a: "scan_digits cs = Some (ds, r)"
  have sum: "length (takeWhile isDigit cs) + length (dropWhile isDigit cs) = length cs"
    by (metis length_append takeWhile_dropWhile_id)
  from a obtain x xs where "takeWhile isDigit cs = x # xs" and r: "r = dropWhile isDigit cs"
    by (cases "takeWhile isDigit cs") (auto simp: scan_digits_def split: if_splits)
  with sum have "Suc (length xs) + length (dropWhile isDigit cs) = length cs"
    by simp
  with r show ?thesis by simp
qed

lemma scan_int_shorter: "scan_int cs = Some (ip, r) \<Longrightarrow> length r < length cs"
  by (auto simp: scan_int_def split: list.splits if_splits dest: scan_digits_shorter)

lemma scan_frac_le: "scan_frac cs = Some (fp, r) \<Longrightarrow> length r \<le> length cs"
  by (auto simp: scan_frac_def split: list.splits if_splits dest!: scan_digits_shorter)

lemma scan_exp_le: "scan_exp cs = Some (ep, r) \<Longrightarrow> length r \<le> length cs"
  by (auto simp: scan_exp_def split: list.splits if_splits dest!: scan_digits_shorter)

lemma scan_number_shorter: "scan_number cs = Some (n, r) \<Longrightarrow> length r < length cs"
proof -
  assume a: "scan_number cs = Some (n, r)"
  obtain sign r0 where s: "(case cs of [] \<Rightarrow> ([], cs) | c # r \<Rightarrow> if c = 0x2D then ([c], r) else ([], cs)) = (sign, r0)"
    by (cases "(case cs of [] \<Rightarrow> ([], cs) | c # r \<Rightarrow> if c = 0x2D then ([c], r) else ([], cs))")
  then have r0: "length r0 \<le> length cs"
    by (auto split: list.splits if_splits)
  from a s obtain ip r1 fp r2 ep where
    "scan_int r0 = Some (ip, r1)" "scan_frac r1 = Some (fp, r2)" "scan_exp r2 = Some (ep, r)"
    by (auto simp: scan_number_def split: option.splits)
  then have "length r1 < length r0" "length r2 \<le> length r1" "length r \<le> length r2"
    by (auto dest: scan_int_shorter scan_frac_le scan_exp_le)
  with r0 show ?thesis by simp
qed

lemma literal_shorter: "skip_ws cs = c # r \<Longrightarrow> 0 < n \<Longrightarrow> length (drop n (c # r)) < length cs"
  using skip_ws_le [of cs] by simp

lemma parse_shorter:
  "(\<forall>v r. parse_value cs = Some (v, r) \<longrightarrow> length r < length cs)"
  "(\<forall>vs r. parse_elements acc cs = Some (vs, r) \<longrightarrow> length r < length cs)"
  "(\<forall>ps r. parse_members pacc cs = Some (ps, r) \<longrightarrow> length r < length cs)"
proof (induction cs and acc cs and pacc cs rule: parse_value_parse_elements_parse_members.induct)
  case (1 cs)
  show ?case
  proof (intro allI impI)
    fix v r
    assume a: "parse_value cs = Some (v, r)"
    then obtain c r0 where sk: "skip_ws cs = c # r0"
      by (subst (asm) parse_value.simps) (auto split: list.splits)
    have r0: "length r0 < length cs"
      using sk by (rule skip_ws_Cons)
    from a sk have b:
      "(if c = 0x5B then
            (case skip_ws r0 of
               [] \<Rightarrow> None
             | d # r' \<Rightarrow>
                 if d = 0x5D then Some (JArray [], r')
                 else map_option (\<lambda>(vs, rest). (JArray vs, rest)) (parse_elements [] r0))
          else if c = 0x7B then
            (case skip_ws r0 of
               [] \<Rightarrow> None
             | d # r' \<Rightarrow>
                 if d = 0x7D then Some (JObject [], r')
                 else map_option (\<lambda>(ps, rest). (JObject ps, rest)) (parse_members [] r0))
          else if c = 0x22 then map_option (\<lambda>(s, rest). (JString s, rest)) (parse_chars r0)
          else if take 4 (c # r0) = str ''true'' then Some (JBool True, drop 4 (c # r0))
          else if take 5 (c # r0) = str ''false'' then Some (JBool False, drop 5 (c # r0))
          else if take 4 (c # r0) = str ''null'' then Some (JNull, drop 4 (c # r0))
          else map_option (\<lambda>(n, rest). (JNumber n, rest)) (scan_number (c # r0))) = Some (v, r)"
      by (subst (asm) parse_value.simps) simp
    consider (arr) "c = 0x5B" | (obj) "c \<noteq> 0x5B" "c = 0x7B" | (other) "c \<noteq> 0x5B" "c \<noteq> 0x7B"
      by blast
    then show "length r < length cs"
    proof cases
      case arr
      with b obtain d r' where d: "skip_ws r0 = d # r'"
        by (auto split: list.splits)
      show ?thesis
      proof (cases "d = 0x5D")
        case True
        with b arr d have "r = r'" by simp
        with d r0 show ?thesis by (auto dest: skip_ws_Cons)
      next
        case False
        with b arr d obtain vs where "parse_elements [] r0 = Some (vs, r)"
          by auto
        with "1.IH"(1) [OF sk arr d False] r0 show ?thesis
          by fastforce
      qed
    next
      case obj
      with b obtain d r' where d: "skip_ws r0 = d # r'"
        by (auto split: list.splits)
      show ?thesis
      proof (cases "d = 0x7D")
        case True
        with b obj d have "r = r'" by simp
        with d r0 show ?thesis by (auto dest: skip_ws_Cons)
      next
        case False
        with b obj d obtain ps where "parse_members [] r0 = Some (ps, r)"
          by auto
        with "1.IH"(2) [OF sk obj(1) obj(2) d False] r0 show ?thesis
          by fastforce
      qed
    next
      case other
      have len: "length (c # r0) \<le> length cs"
        using skip_ws_le [of cs] sk by simp
      from b other len show ?thesis
        by (auto split: if_splits dest!: parse_chars_shorter scan_number_shorter)
    qed
  qed
next
  case (2 acc cs)
  show ?case
  proof (intro allI impI)
    fix vs r
    assume a: "parse_elements acc cs = Some (vs, r)"
    then obtain v r1 where v: "parse_value cs = Some (v, r1)" and g: "length r1 < length cs"
      by (subst (asm) parse_elements.simps) (auto split: option.splits if_splits)
    from a v g obtain d r' where d: "skip_ws r1 = d # r'"
      by (subst (asm) parse_elements.simps) (auto split: list.splits)
    have r': "length r' < length r1"
      using d by (rule skip_ws_Cons)
    from a v g d have b: "(if d = 0x2C then parse_elements (acc @ [v]) r'
         else if d = 0x5D then Some (acc @ [v], r') else None) = Some (vs, r)"
      by (subst (asm) parse_elements.simps) simp
    show "length r < length cs"
    proof (cases "d = 0x2C")
      case True
      with b have "parse_elements (acc @ [v]) r' = Some (vs, r)" by simp
      with "2.IH"(2) [OF v refl g d True] have "length r < length r'" by blast
      with r' g show ?thesis by simp
    next
      case False
      with b have "r = r'" by (auto split: if_splits)
      with r' g show ?thesis by simp
    qed
  qed
next
  case (3 acc cs)
  show ?case
  proof (intro allI impI)
    fix ps r
    assume a: "parse_members acc cs = Some (ps, r)"
    then obtain q r0 where sk: "skip_ws cs = q # r0" and q: "q = 0x22"
      by (subst (asm) parse_members.simps) (auto split: list.splits if_splits)
    from a sk q obtain k r1 where k: "parse_chars r0 = Some (k, r1)"
      by (subst (asm) parse_members.simps) (auto split: option.splits)
    from a sk q k obtain col r2 where c: "skip_ws r1 = col # r2" and col: "col = 0x3A"
      by (subst (asm) parse_members.simps) (auto split: list.splits if_splits)
    from a sk q k c col obtain v r3 where v: "parse_value r2 = Some (v, r3)"
        and g: "length r3 < length r2"
      by (subst (asm) parse_members.simps) (auto split: option.splits if_splits)
    from a sk q k c col v g obtain d r4 where d: "skip_ws r3 = d # r4"
      by (subst (asm) parse_members.simps) (auto split: list.splits)
    from a sk q k c col v g d have b:
      "(if d = 0x2C then parse_members (set_property k v acc) r4
        else if d = 0x7D then Some (set_property k v acc, r4) else None) = Some (ps, r)"
      by (subst (asm) parse_members.simps) simp
    have chain: "length r4 < length cs"
      using skip_ws_Cons [OF sk] parse_chars_shorter [OF k] skip_ws_Cons [OF c] g
        skip_ws_Cons [OF d]
      by simp
    show "length r < length cs"
    proof (cases "d = 0x2C")
      case True
      with b have "parse_members (set_property k v acc) r4 = Some (ps, r)" by simp
      with "3.IH"(2) [OF sk q k refl c col v refl g d True] have "length r < length r4"
        by blast
      with chain show ?thesis by simp
    next
      case False
      with b have "r = r4" by (auto split: if_splits)
      with chain show ?thesis by simp
    qed
  qed
qed

lemma parse_value_shorter: "parse_value cs = Some (v, r) \<Longrightarrow> length r < length cs"
  using parse_shorter(1) by blast

lemma parse_elements_unguarded:
  "parse_elements acc cs =
     (case parse_value cs of
        None \<Rightarrow> None
      | Some (v, r) \<Rightarrow>
          (case skip_ws r of
             [] \<Rightarrow> None
           | d # r' \<Rightarrow>
               if d = 0x2C then parse_elements (acc @ [v]) r'
               else if d = 0x5D then Some (acc @ [v], r')
               else None))"
  by (subst parse_elements.simps) (auto split: option.splits dest: parse_value_shorter)

lemma parse_members_unguarded:
  "parse_members acc cs =
     (case skip_ws cs of
        [] \<Rightarrow> None
      | q # r \<Rightarrow>
          if q = 0x22 then
            (case parse_chars r of
               None \<Rightarrow> None
             | Some (k, r1) \<Rightarrow>
                 (case skip_ws r1 of
                    [] \<Rightarrow> None
                  | col # r2 \<Rightarrow>
                      if col = 0x3A then
                        (case parse_value r2 of
                           None \<Rightarrow> None
                         | Some (v, r3) \<Rightarrow>
                             (case skip_ws r3 of
                                [] \<Rightarrow> None
                              | d # r4 \<Rightarrow>
                                  if d = 0x2C then parse_members (set_property k v acc) r4
                                  else if d = 0x7D then Some (set_property k v acc, r4)
                                  else None))
                      else None))
          else None)"
  by (subst parse_members.simps)
    (auto split: option.splits list.splits dest: parse_value_shorter)

subsection \<open>Strings: what QuoteJSONString writes, the grammar reads back\<close>

lemma hexval_hexdigit: "d < 16 \<Longrightarrow> hexval (hexdigit d) = Some d"
  by (auto simp add: hexval_def hexdigit_def unat_of_nat Let_def)

lemma hex_digits_value:
  fixes n :: nat
  shows "4096 * (n div 4096 mod 16) + 256 * (n div 256 mod 16) + 16 * (n div 16 mod 16) + n mod 16
           = n mod 65536"
proof -
  have a: "n mod 65536 = 4096 * (n div 4096 mod 16) + n mod 4096"
    using mod_mult2_eq [of n 4096 16] by simp
  have b: "n mod 4096 = 256 * (n div 256 mod 16) + n mod 256"
    using mod_mult2_eq [of n 256 16] by simp
  have c: "n mod 256 = 16 * (n div 16 mod 16) + n mod 16"
    using mod_mult2_eq [of n 16 16] by simp
  from a b c show ?thesis by simp
qed

lemma unhex4_UnicodeEscape:
  "unhex4 (hexdigit (unat c div 4096 mod 16)) (hexdigit (unat c div 256 mod 16))
     (hexdigit (unat c div 16 mod 16)) (hexdigit (unat c mod 16)) = Some c"
proof -
  have "unat c < 65536"
    using unsigned_less [of c, where ?'a = nat] by simp
  then have "unat c mod 65536 = unat c" by simp
  then have "4096 * (unat c div 4096 mod 16) + 256 * (unat c div 256 mod 16)
      + 16 * (unat c div 16 mod 16) + unat c mod 16 = unat c"
    by (simp only: hex_digits_value)
  then have "(of_nat (4096 * (unat c div 4096 mod 16) + 256 * (unat c div 256 mod 16)
      + 16 * (unat c div 16 mod 16) + unat c mod 16) :: code_unit) = of_nat (unat c)"
    by (rule arg_cong)
  then have "(of_nat (4096 * (unat c div 4096 mod 16) + 256 * (unat c div 256 mod 16)
      + 16 * (unat c div 16 mod 16) + unat c mod 16) :: code_unit) = c"
    by (simp only: of_nat_unat ucast_id)
  then show ?thesis
    unfolding unhex4_def
    by (simp only: hexval_hexdigit pos_mod_bound zero_less_numeral prod.case option.case)
qed

lemma parse_chars_quote_unit: "parse_chars (quote_unit c @ rest) = prepend c (parse_chars rest)"
  by (simp add: quote_unit_def unescape_def UnicodeEscape_def Let_def unhex4_UnicodeEscape)

lemma surrogate_plain:
  assumes "isLeadingSurrogate c \<or> isTrailingSurrogate c"
  shows "c \<noteq> 0x22 \<and> c \<noteq> 0x5C \<and> \<not> c < 0x20"
proof -
  from assms consider "0xD800 \<le> c" | "0xDC00 \<le> c"
    by (auto simp: isLeadingSurrogate_def isTrailingSurrogate_def)
  then have "0xD800 \<le> c"
  proof cases
    case 1
    then show ?thesis .
  next
    case 2
    have "(0xD800 :: code_unit) \<le> 0xDC00" by simp
    from this 2 show ?thesis by (rule order_trans)
  qed
  then have "\<not> c < 0xD800" by (simp add: not_less)
  moreover have "c < 0x20 \<Longrightarrow> c < 0xD800"
    by (rule order.strict_trans [of c "0x20"]) simp_all
  ultimately show ?thesis by auto
qed

lemma parse_chars_plain:
  "c \<noteq> 0x22 \<and> c \<noteq> 0x5C \<and> \<not> c < 0x20 \<Longrightarrow> parse_chars (c # rest) = prepend c (parse_chars rest)"
  by simp

lemma parse_chars_quote_units:
  "parse_chars (quote_units s @ 0x22 # rest) = Some (s, rest)"
proof (induction s rule: quote_units.induct)
  case 1
  show ?case by simp
next
  case (2 c)
  show ?case by (simp add: parse_chars_quote_unit prepend_def)
next
  case (3 c d cs)
  show ?case
  proof (cases "isLeadingSurrogate c \<and> isTrailingSurrogate d")
    case True
    then have q: "quote_units (c # d # cs) = c # d # quote_units cs"
      by simp
    from True have pc: "c \<noteq> 0x22 \<and> c \<noteq> 0x5C \<and> \<not> c < 0x20"
      using surrogate_plain [of c] by blast
    from True have pd: "d \<noteq> 0x22 \<and> d \<noteq> 0x5C \<and> \<not> d < 0x20"
      using surrogate_plain [of d] by blast
    have "parse_chars (c # d # quote_units cs @ 0x22 # rest)
        = prepend c (prepend d (parse_chars (quote_units cs @ 0x22 # rest)))"
      by (simp only: parse_chars_plain [OF pc] parse_chars_plain [OF pd])
    with True 3 show ?thesis
      by (simp only: q append_Cons prepend_def) simp
  next
    case False
    then have q: "quote_units (c # d # cs) = quote_unit c @ quote_units (d # cs)"
      by auto
    from False 3 show ?thesis
      by (simp only: q append_assoc parse_chars_quote_unit prepend_def) simp
  qed
qed

subsection \<open>Values: a task, an array of tasks\<close>

lemma QuoteJSONString_nonempty: "QuoteJSONString s \<noteq> []"
  by (simp add: QuoteJSONString_def)

lemma parse_value_string:
  "parse_value (QuoteJSONString s @ rest) = Some (JString s, rest)"
  by (subst parse_value.simps)
    (simp add: QuoteJSONString_def skip_ws_def isJSONWhiteSpace_def parse_chars_quote_units)

lemma parse_value_true:
  "parse_value (0x74 # 0x72 # 0x75 # 0x65 # rest) = Some (JBool True, rest)"
  by (subst parse_value.simps) (simp add: skip_ws_def isJSONWhiteSpace_def str_def)

lemma parse_value_false:
  "parse_value (0x66 # 0x61 # 0x6C # 0x73 # 0x65 # rest) = Some (JBool False, rest)"
  by (subst parse_value.simps) (simp add: skip_ws_def isJSONWhiteSpace_def str_def)

lemma parse_members_task:
  "parse_members []
     (str ''\"id\":'' @ QuoteJSONString (task_id t) @
      str '',\"text\":'' @ QuoteJSONString (task_text t) @
      str '',\"completed\":'' @ (if completed t then str ''true'' else str ''false'') @
      str '',\"createdAt\":'' @ QuoteJSONString (createdAt t) @ str ''}'' @ rest)
   = Some ([(str ''id'', JString (task_id t)), (str ''text'', JString (task_text t)),
            (str ''completed'', JBool (completed t)), (str ''createdAt'', JString (createdAt t))], rest)"
proof -
  let ?s4 = "QuoteJSONString (createdAt t) @ str ''}'' @ rest"
  let ?s3 = "(if completed t then str ''true'' else str ''false'') @ str '',\"createdAt\":'' @ ?s4"
  let ?s2 = "QuoteJSONString (task_text t) @ str '',\"completed\":'' @ ?s3"
  let ?s1 = "QuoteJSONString (task_id t) @ str '',\"text\":'' @ ?s2"
  have m4: "parse_members acc (str ''\"createdAt\":'' @ ?s4)
      = Some (set_property (str ''createdAt'') (JString (createdAt t)) acc, rest)" for acc
    by (subst parse_members.simps)
      (simp add: str_def skip_ws_def isJSONWhiteSpace_def parse_value_string prepend_def
        QuoteJSONString_nonempty)
  have m3: "parse_members acc (str ''\"completed\":'' @ ?s3)
      = parse_members (set_property (str ''completed'') (JBool (completed t)) acc)
          (str ''\"createdAt\":'' @ ?s4)" for acc
    by (subst parse_members.simps)
      (simp add: str_def skip_ws_def isJSONWhiteSpace_def prepend_def
        parse_value_true parse_value_false)
  have m2: "parse_members acc (str ''\"text\":'' @ ?s2)
      = parse_members (set_property (str ''text'') (JString (task_text t)) acc)
          (str ''\"completed\":'' @ ?s3)" for acc
    by (subst parse_members.simps)
      (simp add: str_def skip_ws_def isJSONWhiteSpace_def parse_value_string prepend_def
        QuoteJSONString_nonempty)
  have m1: "parse_members acc (str ''\"id\":'' @ ?s1)
      = parse_members (set_property (str ''id'') (JString (task_id t)) acc)
          (str ''\"text\":'' @ ?s2)" for acc
    by (subst parse_members.simps)
      (simp add: str_def skip_ws_def isJSONWhiteSpace_def parse_value_string prepend_def
        QuoteJSONString_nonempty)
  show ?thesis
    by (simp only: m1 m2 m3 m4) (simp add: str_def)
qed

lemma stringify_task_nonempty: "stringify_task t \<noteq> []"
  by (simp add: stringify_task_def str_def)

lemma parse_value_object:
  "skip_ws r = 0x22 # r' \<Longrightarrow>
   parse_value (0x7B # r) = map_option (\<lambda>(ps, rest). (JObject ps, rest)) (parse_members [] r)"
  by (subst parse_value.simps) (simp add: skip_ws_def isJSONWhiteSpace_def)

lemma parse_value_array:
  "skip_ws r = 0x7B # r' \<Longrightarrow>
   parse_value (0x5B # r) = map_option (\<lambda>(vs, rest). (JArray vs, rest)) (parse_elements [] r)"
  by (subst parse_value.simps) (simp add: skip_ws_def isJSONWhiteSpace_def)

lemma parse_value_task:
  "parse_value (stringify_task t @ rest) = Some (task_value t, rest)"
proof -
  let ?body = "str ''\"id\":'' @ QuoteJSONString (task_id t) @
      str '',\"text\":'' @ QuoteJSONString (task_text t) @
      str '',\"completed\":'' @ (if completed t then str ''true'' else str ''false'') @
      str '',\"createdAt\":'' @ QuoteJSONString (createdAt t) @ str ''}'' @ rest"
  have eq: "stringify_task t @ rest = 0x7B # ?body"
    by (simp add: stringify_task_def str_def)
  have "\<exists>r'. skip_ws ?body = 0x22 # r'"
    by (simp add: str_def skip_ws_def isJSONWhiteSpace_def)
  then obtain r' where "skip_ws ?body = 0x22 # r'"
    by blast
  then have "parse_value (0x7B # ?body)
      = map_option (\<lambda>(ps, rest). (JObject ps, rest)) (parse_members [] ?body)"
    by (rule parse_value_object)
  then show ?thesis
    by (simp only: eq parse_members_task task_value_def) simp
qed

lemma parse_elements_tasks:
  "parse_elements acc (join_comma (map stringify_task (t # ts)) @ 0x5D # rest)
     = Some (acc @ map task_value (t # ts), rest)"
proof (induction ts arbitrary: t acc)
  case Nil
  show ?case
    by (subst parse_elements.simps)
      (simp add: parse_value_task stringify_task_nonempty skip_ws_def isJSONWhiteSpace_def)
next
  case (Cons u us)
  show ?case
    using Cons [of "acc @ [task_value t]" u]
    by (subst parse_elements.simps)
      (simp add: parse_value_task stringify_task_nonempty skip_ws_def isJSONWhiteSpace_def)
qed

lemma JSON_parse_stringify: "JSON_parse (JSON_stringify ts) = Inr (tasks_value ts)"
proof (cases ts)
  case Nil
  then show ?thesis
    unfolding JSON_parse_def JSON_stringify_def
    by (subst parse_value.simps) (simp add: skip_ws_def isJSONWhiteSpace_def tasks_value_def)
next
  case (Cons t us)
  let ?r = "join_comma (map stringify_task (t # us)) @ [0x5D]"
  have "\<exists>r'. ?r = 0x7B # r'"
    by (cases us) (simp_all add: stringify_task_def str_def)
  then obtain r' where "?r = 0x7B # r'"
    by blast
  then have "skip_ws ?r = 0x7B # r'"
    by (simp add: skip_ws_def isJSONWhiteSpace_def)
  then have "parse_value (0x5B # ?r)
      = map_option (\<lambda>(vs, rest). (JArray vs, rest)) (parse_elements [] ?r)"
    by (rule parse_value_array)
  then have "parse_value (JSON_stringify ts) = Some (tasks_value ts, [])"
    by (simp only: JSON_stringify_def Cons parse_elements_tasks tasks_value_def) simp
  then show ?thesis
    by (simp add: JSON_parse_def skip_ws_def)
qed

lemma as_task_task_value: "as_task (task_value t) = Some t"
  by (simp add: as_task_def task_value_def str_def)

lemma as_tasks_tasks_value: "as_tasks (tasks_value ts) = Some ts"
  by (induction ts) (simp_all add: as_tasks_def tasks_value_def as_task_task_value)

lemma JSON_stringify_nonempty: "JSON_stringify ts \<noteq> []"
  by (simp add: JSON_stringify_def)

lemmas parse_unfold = parse_value.simps parse_elements.simps parse_members.simps
  JSON_parse_def skip_ws_def isJSONWhiteSpace_def str_def scan_number_def scan_int_def
  scan_frac_def scan_exp_def scan_digits_def isDigit_def prepend_def unescape_def unhex4_def
  hexval_def

lemma JSON_parse_examples:
  "JSON_parse (str ''{}'') = Inr (JObject [])"
  "JSON_parse (str ''[1,2]'') = Inr (JArray [JNumber (str ''1''), JNumber (str ''2'')])"
  by (simp_all add: parse_unfold)

subsection \<open>Saving and loading back\<close>

text \<open>
  Claim C3. For every task list, parsing what \<^verbatim>\<open>JSON.stringify\<close> writes for it gives
  the array of the same task objects, which reads back as the same list: the same tasks
  with the same four fields, in the same order. So when the write and the read both go
  through, \<^verbatim>\<open>loadFromStorage\<close> after \<^verbatim>\<open>saveToStorage\<close> assigns that array to
  \<^verbatim>\<open>tasks\<close> and logs nothing.
\<close>

theorem save_load_roundtrip:
  "JSON_parse (JSON_stringify ts) = Inr (tasks_value ts)
   \<and> as_tasks (tasks_value ts) = Some ts
   \<and> (storage_fault e = None \<and> storage_fault e' = None \<longrightarrow>
        loadFromStorage e' (localStorage (saveToStorage e s)) cur = (tasks_value (tasks s), []))"
proof -
  have stored: "localStorage (saveToStorage e s) STORAGE_KEY = Some (JSON_stringify (tasks s))"
    if "storage_fault e = None"
    using that by (simp add: saveToStorage_def setItem_def)
  have loaded: "loadFromStorage e' st cur = (tasks_value ts, [])"
    if "storage_fault e' = None" and "st STORAGE_KEY = Some (JSON_stringify ts)" for st ts
    using that
    by (simp add: loadFromStorage_def getItem_def JSON_stringify_nonempty JSON_parse_stringify)
  from stored loaded JSON_parse_stringify [of ts] as_tasks_tasks_value [of ts] show ?thesis
    by simp
qed

theorem save_load_roundtrip_witness:
  "storage_fault env0 = None
   \<and> localStorage (saveToStorage env0 (start\<lparr>tasks := two_tasks\<rparr>)) STORAGE_KEY =
       Some (str ''[{\"id\":\"2\",\"text\":\"b\",\"completed\":true,\"createdAt\":\"t2\"},{\"id\":\"1\",\"text\":\"a\",\"completed\":false,\"createdAt\":\"t1\"}]'')
   \<and> loadFromStorage env0 (localStorage (saveToStorage env0 (start\<lparr>tasks := two_tasks\<rparr>))) (JArray [])
       = (tasks_value two_tasks, [])
   \<and> as_tasks (tasks_value two_tasks) = Some two_tasks"
proof -
  have f: "storage_fault env0 = None"
    by (simp add: env0_def)
  have st: "localStorage (saveToStorage env0 (start\<lparr>tasks := two_tasks\<rparr>)) STORAGE_KEY =
       Some (str ''[{\"id\":\"2\",\"text\":\"b\",\"completed\":true,\"createdAt\":\"t2\"},{\"id\":\"1\",\"text\":\"a\",\"completed\":false,\"createdAt\":\"t1\"}]'')"
    by (simp add: saveToStorage_def setItem_def f start_def two_tasks_def JSON_stringify_def
        stringify_task_def QuoteJSONString_def quote_unit_def isLeadingSurrogate_def
        isTrailingSurrogate_def str_def)
  from save_load_roundtrip [of two_tasks env0 env0 "start\<lparr>tasks := two_tasks\<rparr>" "JArray []"] f st
  show ?thesis by simp
qed

text \<open>
  What the code does for stored data it cannot use, where it does something: at startup
  the collection stays empty when the key is missing or holds the empty string, and
  nothing is logged; when reading the storage throws, or the stored text is not JSON
  (\<^verbatim>\<open>JSON.parse\<close> throws), the \<^verbatim>\<open>catch\<close> block logs the error and makes the
  collection empty.
\<close>

lemma loadFromStorage_cases:
  "(storage_fault e = None \<and> st STORAGE_KEY = None \<longrightarrow>
      loadFromStorage e st (JArray []) = (JArray [], []))
   \<and> (storage_fault e = None \<and> st STORAGE_KEY = Some [] \<longrightarrow>
      loadFromStorage e st (JArray []) = (JArray [], []))
   \<and> (storage_fault e = Some x \<longrightarrow>
      loadFromStorage e st cur =
        (JArray [], [ConsoleError (str ''LocalStorage load failed'') (DOMException x)]))
   \<and> (storage_fault e = None \<and> st STORAGE_KEY = Some raw \<and> raw \<noteq> []
        \<and> JSON_parse raw = Inl err \<longrightarrow>
      loadFromStorage e st cur =
        (JArray [], [ConsoleError (str ''LocalStorage load failed'') err]))"
proof -
  have missing: "loadFromStorage e st cur = (cur, [])"
    if "storage_fault e = None \<and> (st STORAGE_KEY = None \<or> st STORAGE_KEY = Some [])" for cur
    using that by (auto simp add: loadFromStorage_def getItem_def)
  have thrown: "loadFromStorage e st cur =
        (JArray [], [ConsoleError (str ''LocalStorage load failed'') (DOMException x)])"
    if "storage_fault e = Some x"
    using that by (simp add: loadFromStorage_def getItem_def)
  have unparsed: "loadFromStorage e st cur =
        (JArray [], [ConsoleError (str ''LocalStorage load failed'') err])"
    if "storage_fault e = None \<and> st STORAGE_KEY = Some raw \<and> raw \<noteq> []
        \<and> JSON_parse raw = Inl err"
    using that by (simp add: loadFromStorage_def getItem_def)
  from missing [of "JArray []"] thrown unparsed show ?thesis
    by blast
qed

text \<open>
  Claim C5. The load operation is to log the error and return an empty collection for
  every stored value that does not deserialize to a task collection. The code does not:
  the \<^verbatim>\<open>catch\<close> block is reached only when \<^verbatim>\<open>JSON.parse\<close> throws, and what it
  returns is assigned to \<^verbatim>\<open>tasks\<close> unchecked. With \<^verbatim>\<open>{}\<close> or \<^verbatim>\<open>[1,2]\<close> under the
  key, which are JSON but not arrays of tasks, \<^verbatim>\<open>tasks\<close> becomes that object or that
  array of numbers, and nothing is logged.
\<close>

theorem loadFromStorage_unvalidated:
  "JSON_parse (str ''{}'') = Inr (JObject [])
   \<and> as_tasks (JObject []) = None
   \<and> loadFromStorage env0 [STORAGE_KEY \<mapsto> str ''{}''] (JArray []) = (JObject [], [])
   \<and> JSON_parse (str ''[1,2]'') = Inr (JArray [JNumber (str ''1''), JNumber (str ''2'')])
   \<and> as_tasks (JArray [JNumber (str ''1''), JNumber (str ''2'')]) = None
   \<and> loadFromStorage env0 [STORAGE_KEY \<mapsto> str ''[1,2]''] (JArray []) =
       (JArray [JNumber (str ''1''), JNumber (str ''2'')], [])"
proof -
  have stored: "loadFromStorage env0 [STORAGE_KEY \<mapsto> raw] (JArray []) = (v, [])"
    if "raw \<noteq> []" and "JSON_parse raw = Inr v" for raw v
    using that by (simp add: loadFromStorage_def getItem_def env0_def)
  have shapes: "as_tasks (JObject []) = None"
    "as_tasks (JArray [JNumber (str ''1''), JNumber (str ''2'')]) = None"
    by (simp_all add: as_tasks_def as_task_def)
  from stored [of "str ''{}''" "JObject []"]
    stored [of "str ''[1,2]''" "JArray [JNumber (str ''1''), JNumber (str ''2'')]"]
    shapes JSON_parse_examples str_nonempty
  show ?thesis
    by simp
qed

section \<open>Ids within a session\<close>

subsection \<open>Different numbers print differently\<close>






subsection \<open>The ids that an operation leaves\<close>








section \<open>Escaping the task text\<close>

lemma escapeHtml_Nil: "escapeHtml [] = []"
  by (simp add: escapeHtml_def)

lemma escapeHtml_Cons: "escapeHtml (c # cs) = spec_entity c @ escapeHtml cs"
  by (simp add: escapeHtml_def spec_entity_def entities_def str_def)

lemma escapeHtml_spec: "escapeHtml s = spec_escape s"
  by (induction s) (simp_all add: escapeHtml_Nil escapeHtml_Cons spec_escape_def)

lemma spec_entity_safe: "set (spec_entity c) \<inter> {0x3C, 0x3E, 0x22, 0x27} = {}"
  by (simp add: spec_entity_def str_def)

lemma escapeHtml_safe: "set (escapeHtml s) \<inter> {0x3C, 0x3E, 0x22, 0x27} = {}"
  using spec_entity_safe by (induction s) (auto simp add: escapeHtml_Nil escapeHtml_Cons)

text \<open>
  Claim C7. \<^verbatim>\<open>escapeHtml\<close> is the escaping that the specification asks for: every
  \<^verbatim>\<open>& < > " '\<close> becomes its entity and every other code unit stays. Its result
  holds none of \<^verbatim>\<open>< > " '\<close>, whatever the text. \<^verbatim>\<open>render\<close> puts the text of a task
  into the markup of its list item through \<^verbatim>\<open>escapeHtml\<close> only: the rest of the markup
  does not depend on the text. The text \<^verbatim>\<open><script>\<close> is written as
  \<^verbatim>\<open>&lt;script&gt;\<close>.
\<close>

theorem escapeHtml_escapes:
  "escapeHtml s = spec_escape s
   \<and> set (escapeHtml s) \<inter> {0x3C, 0x3E, 0x22, 0x27} = {}
   \<and> map innerHTML (list_children (dom (render e st))) =
       map (\<lambda>t. item_head t @ escapeHtml (task_text t) @ item_tail e t) (filteredTasks st)
   \<and> item_head (t\<lparr>task_text := s\<rparr>) = item_head t
   \<and> item_tail e (t\<lparr>task_text := s\<rparr>) = item_tail e t
   \<and> escapeHtml (str ''<script>'') = str ''&lt;script&gt;''"
proof -
  have r: "map innerHTML (list_children (dom (render e st))) =
       map (\<lambda>t. item_head t @ escapeHtml (task_text t) @ item_tail e t) (filteredTasks st)"
    by (simp add: render_def updateLeftInfo_def Let_def render_item_def item_html_def o_def)
  have h: "item_head (t\<lparr>task_text := s\<rparr>) = item_head t"
    "item_tail e (t\<lparr>task_text := s\<rparr>) = item_tail e t"
    by (simp_all add: item_head_def item_tail_def)
  have x: "escapeHtml (str ''<script>'') = str ''&lt;script&gt;''"
    by (simp add: escapeHtml_spec spec_escape_def spec_entity_def str_def)
  from escapeHtml_spec escapeHtml_safe r h x show ?thesis
    by blast
qed

theorem escapeHtml_escapes_witness:
  "escapeHtml (str ''a<b>&\"c\"'' @ [0x27]) = str ''a&lt;b&gt;&amp;&quot;c&quot;&#39;''
   \<and> map innerHTML (list_children (dom (render env0
         (start\<lparr>tasks := [\<lparr>task_id = str ''1'', task_text = str ''<script>'', completed = False,
                            createdAt = str ''t1''\<rparr>]\<rparr>)))) =
       [item_head \<lparr>task_id = str ''1'', task_text = [], completed = False, createdAt = str ''t1''\<rparr>
        @ str ''&lt;script&gt;''
        @ item_tail env0 \<lparr>task_id = str ''1'', task_text = [], completed = False, createdAt = str ''t1''\<rparr>]"
proof -
  let ?t = "\<lparr>task_id = str ''1'', task_text = str ''<script>'', completed = False,
             createdAt = str ''t1''\<rparr>"
  have x: "spec_escape (str ''a<b>&\"c\"'' @ [0x27]) = str ''a&lt;b&gt;&amp;&quot;c&quot;&#39;''"
    by (simp add: spec_escape_def spec_entity_def str_def)
  have f: "filteredTasks (start\<lparr>tasks := [?t]\<rparr>) = [?t]"
    by (simp add: filteredTasks_def start_def filter_names)
  from escapeHtml_escapes [of "str ''a<b>&\"c\"'' @ [0x27]" env0 "start\<lparr>tasks := [?t]\<rparr>" ?t]
    escapeHtml_escapes [of "[]" env0 "start\<lparr>tasks := [?t]\<rparr>" ?t] x f
  show ?thesis
    by (simp add: item_head_def item_tail_def)
qed

end
